theory Spec2Isabelle
  imports Complex_Main "HOL-Library.Word" "HOL-Library.AList"
begin

section \<open>Strings\<close>

text \<open>
  A JavaScript string is a sequence of 16-bit code units, and \<^verbatim>\<open>length\<close> counts
  code units. String literals of the source that are plain ASCII are written through
  \<open>ascii\<close>; the warning emoji of \<^verbatim>\<open>Chat.tsx\<close> is U+26A0 U+FE0F.
\<close>

type_synonym jsstring = "16 word list"

definition ascii :: "string \<Rightarrow> jsstring" where
  "ascii s = map (\<lambda>c. of_nat (of_char c)) s"

definition warning_sign :: jsstring where
  "warning_sign = [0x26A0, 0xFE0F]"

text \<open>\<^verbatim>\<open>Array.prototype.join\<close> on an array of strings.\<close>

fun join :: "jsstring \<Rightarrow> jsstring list \<Rightarrow> jsstring" where
  "join sep [] = []"
| "join sep [x] = x"
| "join sep (x # y # ys) = x @ sep @ join sep (y # ys)"

text \<open>
  \<^verbatim>\<open>String.prototype.trim\<close> strips white space and line terminators from both ends:
  TAB, LF, VT, FF, CR, SP, NBSP, U+1680, U+2000..U+200A, U+2028, U+2029, U+202F,
  U+205F, U+3000 and U+FEFF.
\<close>

definition is_ws :: "16 word \<Rightarrow> bool" where
  "is_ws c \<longleftrightarrow>
     c \<in> {0x09, 0x0A, 0x0B, 0x0C, 0x0D, 0x20, 0xA0, 0x1680, 0x2028, 0x2029,
          0x202F, 0x205F, 0x3000, 0xFEFF}
     \<or> (0x2000 \<le> c \<and> c \<le> 0x200A)"

definition trim :: "jsstring \<Rightarrow> jsstring" where
  "trim s = rev (dropWhile is_ws (rev (dropWhile is_ws s)))"

definition startsWith :: "jsstring \<Rightarrow> jsstring \<Rightarrow> bool" where
  "startsWith s p \<longleftrightarrow> take (length p) s = p"


section \<open>Data model (\<^verbatim>\<open>lib/api.ts\<close>)\<close>

text \<open>
  JavaScript numbers that carry a count are integers here; the two ratios and the
  money amounts are reals. No definition below computes with them except the
  comparison \<^verbatim>\<open>count === 0\<close>.
\<close>

datatype Role = User | Assistant

record ChatMessage =
  role :: Role
  content :: jsstring

record Fan =
  fan_id :: jsstring
  first_name :: jsstring
  last_name :: jsstring
  city :: jsstring
  state :: jsstring
  genres :: "jsstring list"
  last_purchase_date :: jsstring
  total_spent :: real
  email_open_rate :: real

record AudienceResult =
  count :: int
  segment_id :: jsstring
  avg_spent :: real
  open_rate :: real
  fans :: "Fan list"

record Email =
  subject :: jsstring
  preview_text :: jsstring
  email_body :: jsstring

record Sms =
  sms_body :: jsstring

record CampaignDraft =
  email :: Email
  sms :: Sms

record ScheduleResult =
  campaign_id :: jsstring
  sched_segment_id :: jsstring
  event_name :: jsstring
  audience_size :: int
  send_at :: jsstring
  status :: jsstring

text \<open>
  \<^verbatim>\<open>PhaseStatus\<close> of \<^verbatim>\<open>Chat.tsx\<close>. The status of an \<^verbatim>\<open>agent_step\<close> event is
  typed as the sub-union without \<^verbatim>\<open>idle\<close>; \<^verbatim>\<open>updatePhase\<close> takes a
  \<^verbatim>\<open>PhaseStatus\<close>, so one type serves both.
\<close>

datatype PhaseStatus = Idle | Running | Done | Error

datatype SSEEvent =
    E_agent_step jsstring PhaseStatus
  | E_audience_result AudienceResult
  | E_campaign_draft CampaignDraft
  | E_scheduled ScheduleResult
  | E_token jsstring
  | E_done
  | E_error jsstring

datatype MessageContent =
    Text jsstring
  | Audience AudienceResult
  | Campaign CampaignDraft
  | Scheduled ScheduleResult

record Message =
  msg_id :: jsstring
  msg_role :: Role
  contents :: "MessageContent list"


section \<open>The state of \<^verbatim>\<open>Chat\<close> and the reducer inside \<^verbatim>\<open>send\<close>\<close>

text \<open>
  \<^verbatim>\<open>phases\<close> is a \<^verbatim>\<open>Record<string, PhaseStatus>\<close>: an object whose keys keep
  their insertion order. It is an association list; the spread
  \<^verbatim>\<open>{ ...prev, [node]: status }\<close> replaces the value of a key that is present and
  adds a new key at the end, which is \<open>AList.update\<close>.
\<close>

record chat_state =
  messages :: "Message list"
  input :: jsstring
  isStreaming :: bool
  phases :: "(jsstring \<times> PhaseStatus) list"

definition updatePhase :: "jsstring \<Rightarrow> PhaseStatus \<Rightarrow> chat_state \<Rightarrow> chat_state" where
  "updatePhase node st s = s\<lparr>phases := AList.update node st (phases s)\<rparr>"

text \<open>
  The updater that \<^verbatim>\<open>flushText\<close> applies to the assistant message. On an empty
  \<^verbatim>\<open>contents\<close> the source reads index \<open>-1\<close>, gets \<^verbatim>\<open>undefined\<close>, and the optional
  chaining sends it to the append branch.
\<close>

definition merge_text :: "jsstring \<Rightarrow> Message \<Rightarrow> Message" where
  "merge_text snapshot m =
     (case contents m of
        [] \<Rightarrow> m\<lparr>contents := contents m @ [Text snapshot]\<rparr>
      | _ # _ \<Rightarrow>
          (case last (contents m) of
             Text t \<Rightarrow> m\<lparr>contents := butlast (contents m) @ [Text (t @ snapshot)]\<rparr>
           | _ \<Rightarrow> m\<lparr>contents := contents m @ [Text snapshot]\<rparr>))"

text \<open>
  The local variable \<^verbatim>\<open>textBuffer\<close> travels with the component state: a reducer
  state is the pair of both. \<^verbatim>\<open>aid\<close> is \<^verbatim>\<open>assistantId\<close>.
\<close>

type_synonym reducer_state = "chat_state \<times> jsstring"

definition flushText :: "jsstring \<Rightarrow> reducer_state \<Rightarrow> reducer_state" where
  "flushText aid rs =
     (case rs of (s, textBuffer) \<Rightarrow>
        if textBuffer = [] then (s, textBuffer)
        else (s\<lparr>messages :=
                  map (\<lambda>m. if msg_id m \<noteq> aid then m else merge_text textBuffer m)
                      (messages s)\<rparr>, []))"

definition push_content :: "MessageContent \<Rightarrow> Message \<Rightarrow> Message" where
  "push_content c m = m\<lparr>contents := contents m @ [c]\<rparr>"

definition appendContent :: "jsstring \<Rightarrow> MessageContent \<Rightarrow> reducer_state \<Rightarrow> reducer_state" where
  "appendContent aid c rs =
     (case flushText aid rs of (s, textBuffer) \<Rightarrow>
        (s\<lparr>messages :=
              map (\<lambda>m. if msg_id m = aid then push_content c m else m) (messages s)\<rparr>,
         textBuffer))"

text \<open>
  The body of the \<^verbatim>\<open>for await\<close> loop. The source flushes when the buffer is longer
  than 50 code units; the bound is a parameter here and \<open>flush_threshold\<close> is the
  value the source uses.
\<close>

definition flush_threshold :: nat where
  "flush_threshold = 50"

fun handle_event :: "nat \<Rightarrow> jsstring \<Rightarrow> SSEEvent \<Rightarrow> reducer_state \<Rightarrow> reducer_state" where
  "handle_event thr aid (E_agent_step node st) (s, buf) = (updatePhase node st s, buf)"
| "handle_event thr aid (E_token c) (s, buf) =
     (if length (buf @ c) > thr then flushText aid (s, buf @ c) else (s, buf @ c))"
| "handle_event thr aid (E_audience_result d) rs =
     appendContent aid (Audience d) (flushText aid rs)"
| "handle_event thr aid (E_campaign_draft d) rs =
     appendContent aid (Campaign d) (flushText aid rs)"
| "handle_event thr aid (E_scheduled d) rs =
     appendContent aid (Scheduled d) (flushText aid rs)"
| "handle_event thr aid E_done rs = flushText aid rs"
| "handle_event thr aid (E_error msg) rs =
     appendContent aid (Text (warning_sign @ ascii '' '' @ msg)) (flushText aid rs)"

fun run_events :: "nat \<Rightarrow> jsstring \<Rightarrow> SSEEvent list \<Rightarrow> reducer_state \<Rightarrow> reducer_state" where
  "run_events thr aid [] rs = rs"
| "run_events thr aid (e # es) rs = run_events thr aid es (handle_event thr aid e rs)"


section \<open>Vocabulary of the event stream\<close>

text \<open>Terminal events, structured events and their blocks, text blocks.\<close>

fun is_terminal :: "SSEEvent \<Rightarrow> bool" where
  "is_terminal E_done = True"
| "is_terminal (E_error msg) = True"
| "is_terminal e = False"

fun structured_block :: "SSEEvent \<Rightarrow> MessageContent option" where
  "structured_block (E_audience_result d) = Some (Audience d)"
| "structured_block (E_campaign_draft d) = Some (Campaign d)"
| "structured_block (E_scheduled d) = Some (Scheduled d)"
| "structured_block e = None"

fun structured_blocks :: "SSEEvent list \<Rightarrow> MessageContent list" where
  "structured_blocks [] = []"
| "structured_blocks (e # es) =
     (case structured_block e of None \<Rightarrow> structured_blocks es
      | Some c \<Rightarrow> c # structured_blocks es)"

fun is_text :: "MessageContent \<Rightarrow> bool" where
  "is_text (Text t) = True"
| "is_text c = False"

text \<open>
  The text of a text block. On any other block the source would read \<^verbatim>\<open>undefined\<close>,
  which \<^verbatim>\<open>join\<close> prints as the empty string.
\<close>

fun text_of :: "MessageContent \<Rightarrow> jsstring" where
  "text_of (Text t) = t"
| "text_of c = []"

text \<open>
  A span is what arrives between two structured or terminal events: tokens, with
  phase updates among them. \<open>span_text\<close> is the concatenation of its fragments.
\<close>

fun in_span :: "SSEEvent \<Rightarrow> bool" where
  "in_span (E_token c) = True"
| "in_span (E_agent_step node st) = True"
| "in_span e = False"

fun token_content :: "SSEEvent \<Rightarrow> jsstring" where
  "token_content (E_token c) = c"
| "token_content e = []"

definition span_text :: "SSEEvent list \<Rightarrow> jsstring" where
  "span_text es = concat (map token_content es)"



section \<open>The reference reducer\<close>

text \<open>
  What a flush of the text \<open>buf\<close> makes of a list of blocks, in the words of the
  specification: merged into the last block when that is a text block, a new text
  block otherwise.
\<close>

definition flushed_contents :: "jsstring \<Rightarrow> MessageContent list \<Rightarrow> MessageContent list" where
  "flushed_contents buf cs =
     (if cs \<noteq> [] \<and> is_text (last cs) then butlast cs @ [Text (text_of (last cs) @ buf)]
      else cs @ [Text buf])"

text \<open>
  The un-batched reducer the specification compares with. It keeps no buffer: the
  text of a token is committed to the assistant message at once (an empty fragment
  commits nothing, as an empty buffer does), a structured event appends its block and
  an error event its visible text block.
\<close>

definition ref_commit :: "jsstring \<Rightarrow> jsstring \<Rightarrow> chat_state \<Rightarrow> chat_state" where
  "ref_commit aid txt s =
     (if txt = [] then s
      else s\<lparr>messages :=
               map (\<lambda>m. if msg_id m = aid
                        then m\<lparr>contents := flushed_contents txt (contents m)\<rparr> else m)
                   (messages s)\<rparr>)"

definition ref_append :: "jsstring \<Rightarrow> MessageContent \<Rightarrow> chat_state \<Rightarrow> chat_state" where
  "ref_append aid c s =
     s\<lparr>messages :=
          map (\<lambda>m. if msg_id m = aid then m\<lparr>contents := contents m @ [c]\<rparr> else m)
              (messages s)\<rparr>"

fun ref_event :: "jsstring \<Rightarrow> SSEEvent \<Rightarrow> chat_state \<Rightarrow> chat_state" where
  "ref_event aid (E_agent_step node st) s = updatePhase node st s"
| "ref_event aid (E_token c) s = ref_commit aid c s"
| "ref_event aid (E_audience_result d) s = ref_append aid (Audience d) s"
| "ref_event aid (E_campaign_draft d) s = ref_append aid (Campaign d) s"
| "ref_event aid (E_scheduled d) s = ref_append aid (Scheduled d) s"
| "ref_event aid E_done s = s"
| "ref_event aid (E_error msg) s = ref_append aid (Text (warning_sign @ ascii '' '' @ msg)) s"

fun ref_run :: "jsstring \<Rightarrow> SSEEvent list \<Rightarrow> chat_state \<Rightarrow> chat_state" where
  "ref_run aid [] s = s"
| "ref_run aid (e # es) s = ref_run aid es (ref_event aid e s)"


section \<open>The history sent with a request\<close>

text \<open>
  \<^verbatim>\<open>send\<close> keeps the text blocks of each message, projects their \<^verbatim>\<open>text\<close>
  (\<open>text_of\<close>) and joins them with a line feed.
\<close>

definition to_chat :: "Message \<Rightarrow> ChatMessage" where
  "to_chat m =
     \<lparr>role = msg_role m,
      content = join [0x0A] (map text_of (filter is_text (contents m)))\<rparr>"

definition chat_history :: "Message list \<Rightarrow> ChatMessage list" where
  "chat_history ms = map to_chat ms"


section \<open>\<^verbatim>\<open>streamChat\<close> (\<^verbatim>\<open>lib/api.ts\<close>)\<close>

text \<open>
  A value that is thrown: an \<^verbatim>\<open>Error\<close> instance with its message, or anything else.
\<close>

datatype thrown = ErrorObj jsstring | NonError

text \<open>
  The server's answer as the client sees it. \<^verbatim>\<open>fetch\<close> rejects or resolves to a
  response; the body is the list of texts that the stream decoder returns for the
  successive reads, and then the reader either reports the end or throws. A missing
  body makes \<^verbatim>\<open>getReader\<close> throw before the first read: no chunk and \<open>Read_fails\<close>.
  The streaming \<^verbatim>\<open>TextDecoder\<close> does not throw.
\<close>

datatype read_end = End_of_stream | Read_fails thrown

record response =
  ok :: bool
  resp_status :: nat
  body_chunks :: "jsstring list"
  body_end :: read_end

datatype fetch_result = Fetch_fails thrown | Fetched response

text \<open>Decimal digits of a number, for the template literals.\<close>

function show_nat :: "nat \<Rightarrow> jsstring" where
  "show_nat n =
     (if n < 10 then [of_nat (48 + n)]
      else show_nat (n div 10) @ [of_nat (48 + n mod 10)])"
  by pat_completeness auto
termination
  by (relation "measure (\<lambda>n. n)") auto

declare show_nat.simps [simp del]

text \<open>
  \<^verbatim>\<open>buffer.split\<close> at the separator of two line feeds: the occurrences are taken
  from the left and do not overlap, and the result has one part more than there are
  occurrences.
\<close>

fun split_nn :: "jsstring \<Rightarrow> jsstring list" where
  "split_nn [] = [[]]"
| "split_nn [x] = [[x]]"
| "split_nn (x # y # zs) =
     (if x = 0x0A \<and> y = 0x0A then [] # split_nn zs
      else (case split_nn (y # zs) of
              [] \<Rightarrow> [[x]]
            | p # ps \<Rightarrow> (x # p) # ps))"

text \<open>\<^verbatim>\<open>parts.pop() ?? ""\<close>: the last part, and the parts left in the array.\<close>

definition pop :: "jsstring list \<Rightarrow> jsstring \<times> jsstring list" where
  "pop parts = (case parts of [] \<Rightarrow> ([], []) | _ # _ \<Rightarrow> (last parts, butlast parts))"

text \<open>
  One part of the buffer. \<^verbatim>\<open>JSON.parse\<close> is the parameter \<open>parse\<close>; \<open>None\<close> is its
  \<^verbatim>\<open>SyntaxError\<close>, which the guard around the \<^verbatim>\<open>yield\<close> catches.
\<close>

definition decode_part :: "(jsstring \<Rightarrow> SSEEvent option) \<Rightarrow> jsstring \<Rightarrow> SSEEvent option" where
  "decode_part parse part =
     (let line = trim part in
      if \<not> startsWith line (ascii ''data: '') then None
      else parse (drop 6 line))"

fun yield_parts :: "(jsstring \<Rightarrow> SSEEvent option) \<Rightarrow> jsstring list \<Rightarrow> SSEEvent list" where
  "yield_parts parse [] = []"
| "yield_parts parse (p # ps) =
     (case decode_part parse p of
        None \<Rightarrow> yield_parts parse ps
      | Some e \<Rightarrow> e # yield_parts parse ps)"

text \<open>
  The \<^verbatim>\<open>while (true)\<close> loop over the reads; at the end of the stream what is left in
  the buffer is dropped.
\<close>

fun read_loop :: "(jsstring \<Rightarrow> SSEEvent option) \<Rightarrow> jsstring \<Rightarrow> jsstring list \<Rightarrow> SSEEvent list" where
  "read_loop parse buffer [] = []"
| "read_loop parse buffer (v # vs) =
     (case pop (split_nn (buffer @ v)) of
        (buffer', parts) \<Rightarrow> yield_parts parse parts @ read_loop parse buffer' vs)"

text \<open>
  What the generator hands to its consumer: the events it yields, and the value it
  throws afterwards, if any.
\<close>

type_synonym outcome = "SSEEvent list \<times> thrown option"

definition streamChat :: "(jsstring \<Rightarrow> SSEEvent option) \<Rightarrow> fetch_result \<Rightarrow> outcome" where
  "streamChat parse fr =
     (case fr of
        Fetch_fails t \<Rightarrow> ([], Some t)
      | Fetched r \<Rightarrow>
          if \<not> ok r
          then ([], Some (ErrorObj (ascii ''API error: '' @ show_nat (resp_status r))))
          else (read_loop parse [] (body_chunks r),
                case body_end r of End_of_stream \<Rightarrow> None | Read_fails t \<Rightarrow> Some t))"


section \<open>\<^verbatim>\<open>send\<close> (\<^verbatim>\<open>Chat.tsx\<close>)\<close>

definition connection_error :: "thrown \<Rightarrow> MessageContent" where
  "connection_error err =
     Text (warning_sign @ ascii '' Connection error: '' @
           (case err of ErrorObj m \<Rightarrow> m | NonError \<Rightarrow> ascii ''Unknown error''))"

text \<open>The \<^verbatim>\<open>try\<close> / \<^verbatim>\<open>catch\<close> / \<^verbatim>\<open>finally\<close> around the loop.\<close>

definition consume :: "jsstring \<Rightarrow> outcome \<Rightarrow> chat_state \<Rightarrow> chat_state" where
  "consume aid out s =
     (let rs = run_events flush_threshold aid (fst out) (s, []);
          rs' = (case snd out of
                   None \<Rightarrow> rs
                 | Some err \<Rightarrow> appendContent aid (connection_error err) (flushText aid rs))
      in (fst rs')\<lparr>isStreaming := False\<rparr>)"

text \<open>
  \<^verbatim>\<open>send\<close> takes the two identifiers that \<^verbatim>\<open>crypto.randomUUID\<close> returns and the server
  as a function of the request body. It returns the new state and the history it
  posted, \<open>None\<close> when it issued no request. The state updates are applied in the
  order in which the source queues them; moving the focus to the input field at the
  end has no effect on the state.
\<close>

definition send ::
  "(jsstring \<Rightarrow> SSEEvent option) \<Rightarrow> (ChatMessage list \<Rightarrow> fetch_result) \<Rightarrow> jsstring \<Rightarrow> jsstring
     \<Rightarrow> jsstring \<Rightarrow> chat_state \<Rightarrow> chat_state \<times> ChatMessage list option" where
  "send parse server uid aid text s =
     (if trim text = [] \<or> isStreaming s then (s, None)
      else
        let userMessage = \<lparr>msg_id = uid, msg_role = User, contents = [Text (trim text)]\<rparr>;
            s1 = s\<lparr>messages := messages s @ [userMessage], input := [],
                   isStreaming := True, phases := []\<rparr>;
            history = chat_history (messages s @ [userMessage]);
            assistantMessage = \<lparr>msg_id = aid, msg_role = Assistant, contents = []\<rparr>;
            s2 = s1\<lparr>messages := messages s1 @ [assistantMessage]\<rparr>
        in (consume aid (streamChat parse (server history)) s2, Some history))"


section \<open>Rendering\<close>

text \<open>
  \<^verbatim>\<open>MessageBubble\<close> maps every content block, with its index as key, to an element
  or to \<^verbatim>\<open>null\<close>. The repository holds two versions: one prints the text of an
  assistant block as it is, the other one through \<^verbatim>\<open>ReactMarkdown\<close>.
\<close>

datatype element =
    Plain_bubble nat bool jsstring
  | Markdown_bubble nat jsstring
  | AudienceCard nat AudienceResult
  | CampaignPreview_el nat CampaignDraft
  | Scheduled_box nat ScheduleResult

fun render_content :: "bool \<Rightarrow> nat \<Rightarrow> MessageContent \<Rightarrow> element option" where
  "render_content isUser i (Text t) = Some (Plain_bubble i isUser t)"
| "render_content isUser i (Audience d) =
     (if count d = 0 then None else Some (AudienceCard i d))"
| "render_content isUser i (Campaign d) = Some (CampaignPreview_el i d)"
| "render_content isUser i (Scheduled d) = Some (Scheduled_box i d)"

fun render_content_md :: "bool \<Rightarrow> nat \<Rightarrow> MessageContent \<Rightarrow> element option" where
  "render_content_md isUser i (Text t) =
     Some (if isUser then Plain_bubble i isUser t else Markdown_bubble i t)"
| "render_content_md isUser i (Audience d) =
     (if count d = 0 then None else Some (AudienceCard i d))"
| "render_content_md isUser i (Campaign d) = Some (CampaignPreview_el i d)"
| "render_content_md isUser i (Scheduled d) = Some (Scheduled_box i d)"

definition MessageBubble :: "Message \<Rightarrow> element option list" where
  "MessageBubble message =
     (let isUser = (msg_role message = User) in
      map (\<lambda>(i, c). render_content isUser i c) (enumerate 0 (contents message)))"

definition MessageBubble_md :: "Message \<Rightarrow> element option list" where
  "MessageBubble_md message =
     (let isUser = (msg_role message = User) in
      map (\<lambda>(i, c). render_content_md isUser i c) (enumerate 0 (contents message)))"

text \<open>
  \<^verbatim>\<open>SMSPreview\<close>: the text in the bubble, and the counter below it with its class
  and its text.
\<close>

record sms_view =
  bubble_text :: jsstring
  counter_class :: jsstring
  counter_text :: jsstring

definition SMSPreview :: "Sms \<Rightarrow> sms_view" where
  "SMSPreview s =
     (let charCount = length (sms_body s);
          isOver = (charCount > 160)
      in \<lparr>bubble_text = sms_body s,
          counter_class = (if isOver then ascii ''text-red-400'' else ascii ''text-gray-600''),
          counter_text = show_nat charCount @ ascii ''/160 chars''\<rparr>)"

datatype tab = Email_tab | Sms_tab

datatype panel = EmailPreview Email | SMSPreview_panel sms_view

definition CampaignPreview :: "tab \<Rightarrow> CampaignDraft \<Rightarrow> panel" where
  "CampaignPreview t d =
     (if t = Email_tab then EmailPreview (email d) else SMSPreview_panel (SMSPreview (sms d)))"

text \<open>
  \<^verbatim>\<open>AgentPipeline\<close>: nothing while no phase has left \<^verbatim>\<open>idle\<close>, otherwise the five
  phases, each with the status stored under its id, \<^verbatim>\<open>idle\<close> when there is none.
\<close>

record Phase =
  phase_id :: jsstring
  label :: jsstring
  icon :: jsstring

definition PHASES :: "Phase list" where
  "PHASES =
     [\<lparr>phase_id = ascii ''analyzing'', label = ascii ''Analyzing'', icon = [0xD83E, 0xDDE0]\<rparr>,
      \<lparr>phase_id = ascii ''audience_research'', label = ascii ''CRM Query'', icon = [0xD83D, 0xDD0D]\<rparr>,
      \<lparr>phase_id = ascii ''strategy'', label = ascii ''Strategy'', icon = [0xD83D, 0xDCCA]\<rparr>,
      \<lparr>phase_id = ascii ''copy_writing'', label = ascii ''Writing Copy'', icon = [0x270D, 0xFE0F]\<rparr>,
      \<lparr>phase_id = ascii ''scheduling'', label = ascii ''Scheduling'', icon = [0xD83D, 0xDCC5]\<rparr>]"

definition phase_status :: "(jsstring \<times> PhaseStatus) list \<Rightarrow> Phase \<Rightarrow> PhaseStatus" where
  "phase_status activePhases phase =
     (case map_of activePhases (phase_id phase) of None \<Rightarrow> Idle | Some st \<Rightarrow> st)"

definition AgentPipeline :: "(jsstring \<times> PhaseStatus) list \<Rightarrow> (Phase \<times> PhaseStatus) list option" where
  "AgentPipeline activePhases =
     (let hasActivity = list_ex (\<lambda>st. st \<noteq> Idle) (map snd activePhases) in
      if \<not> hasActivity then None
      else Some (map (\<lambda>phase. (phase, phase_status activePhases phase)) PHASES))"

text \<open>
  The node-to-phase table of the specification, which maps the name of a tool to
  the phase that stands for it.
\<close>

definition node_to_phase :: "jsstring \<Rightarrow> jsstring option" where
  "node_to_phase node =
     (if node = ascii ''analyzing'' then Some (ascii ''analyzing'')
      else if node = ascii ''query_crm'' then Some (ascii ''audience_research'')
      else if node = ascii ''generate_campaign_copy'' then Some (ascii ''copy_writing'')
      else if node = ascii ''schedule_campaign'' then Some (ascii ''scheduling'')
      else None)"


section \<open>Corrupt frames\<close>

text \<open>
  A frame in the words of the specification. The text of a frame is taken without
  the white space around it. A well-formed frame is the prefix \<^verbatim>\<open>data: \<close> followed by
  a payload that parses; \<open>payload_after\<close> gives what follows a prefix, if the text
  starts with it. A frame is corrupt when it lacks the prefix or when its payload
  does not parse.
\<close>

fun payload_after :: "jsstring \<Rightarrow> jsstring \<Rightarrow> jsstring option" where
  "payload_after [] s = Some s"
| "payload_after (p # ps) [] = None"
| "payload_after (p # ps) (c # cs) = (if p = c then payload_after ps cs else None)"

definition corrupt_frame :: "(jsstring \<Rightarrow> SSEEvent option) \<Rightarrow> jsstring \<Rightarrow> bool" where
  "corrupt_frame parse frame \<longleftrightarrow>
     (case payload_after (ascii ''data: '') (trim frame) of
        None \<Rightarrow> True
      | Some payload \<Rightarrow> parse payload = None)"


section \<open>Auxiliary notions and concrete inputs\<close>

text \<open>The identifier of a message with its blocks that are not text.\<close>

definition id_blocks :: "Message \<Rightarrow> jsstring \<times> MessageContent list" where
  "id_blocks m = (msg_id m, filter (\<lambda>c. \<not> is_text c) (contents m))"

definition add_blocks ::
  "jsstring \<Rightarrow> MessageContent list \<Rightarrow> jsstring \<times> MessageContent list
     \<Rightarrow> jsstring \<times> MessageContent list" where
  "add_blocks aid cs p = (fst p, snd p @ (if fst p = aid then cs else []))"

text \<open>A conversation in flight: one user message and the empty assistant message.\<close>

definition demo_state :: chat_state where
  "demo_state =
     \<lparr>messages = [\<lparr>msg_id = ascii ''u1'', msg_role = User, contents = [Text (ascii ''hi'')]\<rparr>,
                  \<lparr>msg_id = ascii ''a1'', msg_role = Assistant, contents = []\<rparr>],
      input = [], isStreaming = True, phases = []\<rparr>"

definition demo_audience :: AudienceResult where
  "demo_audience =
     \<lparr>count = 12, segment_id = ascii ''seg_1'', avg_spent = 0, open_rate = 0, fans = []\<rparr>"


text \<open>The same conversation after an audience card and some text.\<close>

definition demo_state2 :: chat_state where
  "demo_state2 =
     \<lparr>messages = [\<lparr>msg_id = ascii ''a1'', msg_role = Assistant,
                    contents = [Audience demo_audience, Text (ascii ''ab'')]\<rparr>],
      input = [], isStreaming = True, phases = []\<rparr>"


text \<open>An idle chat, a toy parser for two payloads, and a server that answers 503.\<close>

definition demo_idle :: chat_state where
  "demo_idle = \<lparr>messages = [], input = ascii ''hi'', isStreaming = False, phases = []\<rparr>"

definition demo_parse :: "jsstring \<Rightarrow> SSEEvent option" where
  "demo_parse j =
     (if j = ascii ''D'' then Some E_done
      else if j = ascii ''T'' then Some (E_token (ascii ''hey''))
      else None)"

definition demo_server_down :: "ChatMessage list \<Rightarrow> fetch_result" where
  "demo_server_down h =
     Fetched \<lparr>ok = False, resp_status = 503, body_chunks = [], body_end = End_of_stream\<rparr>"


definition demo_response :: response where
  "demo_response = \<lparr>ok = True, resp_status = 200, body_chunks = [], body_end = End_of_stream\<rparr>"

text \<open>Messages with audience cards, one of them empty.\<close>

definition demo_empty_audience :: AudienceResult where
  "demo_empty_audience =
     \<lparr>count = 0, segment_id = ascii ''seg_0'', avg_spent = 0, open_rate = 0, fans = []\<rparr>"

definition demo_cards :: Message where
  "demo_cards =
     \<lparr>msg_id = ascii ''a1'', msg_role = Assistant,
      contents = [Text (ascii ''ab''), Audience demo_empty_audience, Text (ascii ''cd''),
                  Audience demo_audience]\<rparr>"

definition demo_cards_only :: Message where
  "demo_cards_only =
     \<lparr>msg_id = ascii ''a2'', msg_role = Assistant, contents = [Audience demo_audience]\<rparr>"


section \<open>Flushing\<close>

lemma merge_text_Nil: "contents m = [] \<Longrightarrow> merge_text a m = m\<lparr>contents := [Text a]\<rparr>"
  by (simp add: merge_text_def)

lemma merge_text_snoc:
  "contents m = ys @ [y] \<Longrightarrow>
   merge_text a m =
     (case y of Text t \<Rightarrow> m\<lparr>contents := ys @ [Text (t @ a)]\<rparr>
      | _ \<Rightarrow> m\<lparr>contents := ys @ [y, Text a]\<rparr>)"
  by (simp add: merge_text_def list.case_eq_if split: MessageContent.splits)

lemma msg_id_merge_text: "msg_id (merge_text a m) = msg_id m"
  by (cases "contents m" rule: rev_cases)
     (simp_all add: merge_text_Nil merge_text_snoc split: MessageContent.splits)

lemma merge_text_merge_text: "merge_text b (merge_text a m) = merge_text (a @ b) m"
  by (cases "contents m" rule: rev_cases)
     (simp_all add: merge_text_Nil merge_text_snoc split: MessageContent.splits)

lemma merge_text_flushed_contents:
  "merge_text buf m = m\<lparr>contents := flushed_contents buf (contents m)\<rparr>"
  by (cases "contents m" rule: rev_cases)
     (simp_all add: merge_text_Nil merge_text_snoc flushed_contents_def split: MessageContent.splits)

lemma ref_commit_flush: "ref_commit aid txt s = fst (flushText aid (s, txt))"
  by (simp add: ref_commit_def flushText_def merge_text_flushed_contents cong: if_cong)

lemma snd_flushText: "snd (flushText aid rs) = []"
  by (cases rs) (simp add: flushText_def)

lemma flushText_empty: "flushText aid (s, []) = (s, [])"
  by (simp add: flushText_def)

lemma flushText_idem: "flushText aid (flushText aid rs) = flushText aid rs"
  by (cases rs) (simp add: flushText_def)

lemma fst_flushText_append:
  "fst (flushText aid (fst (flushText aid (s, a)), b)) = fst (flushText aid (s, a @ b))"
  by (simp add: flushText_def merge_text_merge_text msg_id_merge_text comp_def cong: if_cong)

lemma flushText_updatePhase:
  "flushText aid (updatePhase node st s, buf) = (updatePhase node st (fst (flushText aid (s, buf))), [])"
  by (simp add: flushText_def updatePhase_def)

lemma appendContent_flushed:
  "appendContent aid c (flushText aid rs) = (ref_append aid c (fst (flushText aid rs)), [])"
  by (cases rs) (simp add: appendContent_def ref_append_def push_content_def flushText_def)

lemma handle_event_sim:
  "fst (flushText aid (handle_event thr aid e rs)) = ref_event aid e (fst (flushText aid rs))"
proof (cases rs)
  case (Pair s buf)
  show ?thesis
  proof (cases e)
    case (E_agent_step node st)
    then show ?thesis using Pair by (simp add: flushText_updatePhase)
  next
    case (E_token c)
    then show ?thesis using Pair
      by (simp add: flushText_idem ref_commit_flush fst_flushText_append)
  next
    case E_done
    then show ?thesis using Pair by (simp add: flushText_idem)
  qed (simp_all add: Pair appendContent_flushed flushText_empty)
qed

lemma run_events_sim:
  "fst (flushText aid (run_events thr aid es rs)) = ref_run aid es (fst (flushText aid rs))"
  by (induction es arbitrary: rs) (simp_all add: handle_event_sim)

lemma run_events_append:
  "run_events thr aid (es @ fs) rs = run_events thr aid fs (run_events thr aid es rs)"
  by (induction es arbitrary: rs) simp_all

lemma snd_handle_terminal: "is_terminal e \<Longrightarrow> snd (handle_event thr aid e rs) = []"
  by (cases e) (simp_all add: snd_flushText appendContent_flushed)

lemma snd_run_terminal:
  assumes "es \<noteq> []" and "is_terminal (last es)"
  shows "snd (run_events thr aid es rs) = []"
proof -
  from assms(1) obtain fs e where es: "es = fs @ [e]" by (metis rev_exhaust)
  with assms(2) have "is_terminal e" by simp
  then show ?thesis by (simp add: es run_events_append snd_handle_terminal)
qed

lemma run_events_terminal_eq:
  assumes "es \<noteq> []" and "is_terminal (last es)"
  shows "run_events thr aid es (s, []) = (ref_run aid es s, [])"
proof -
  have e: "snd (run_events thr aid es (s, [])) = []" using assms by (rule snd_run_terminal)
  then have "flushText aid (run_events thr aid es (s, [])) = run_events thr aid es (s, [])"
    by (cases "run_events thr aid es (s, [])") (simp add: flushText_empty)
  moreover have "fst (flushText aid (run_events thr aid es (s, []))) = ref_run aid es s"
    by (simp add: run_events_sim flushText_empty)
  ultimately show ?thesis using e
    by (metis prod.collapse)
qed


section \<open>The blocks that are not text keep the order of their events\<close>

lemma id_blocks_merge_text: "id_blocks (merge_text a m) = id_blocks m"
  by (cases "contents m" rule: rev_cases)
     (simp_all add: id_blocks_def merge_text_Nil merge_text_snoc split: MessageContent.splits)

lemma add_blocks_Nil: "add_blocks aid [] = (\<lambda>p. p)"
  by (rule ext) (simp add: add_blocks_def)

lemma add_blocks_add_blocks: "add_blocks aid cs (add_blocks aid bs p) = add_blocks aid (bs @ cs) p"
  by (simp add: add_blocks_def)

lemma id_blocks_ref_append:
  "map id_blocks (messages (ref_append aid c s)) =
   map (add_blocks aid (if is_text c then [] else [c])) (map id_blocks (messages s))"
  by (simp add: ref_append_def add_blocks_def id_blocks_def)

lemma id_blocks_ref_commit:
  "map id_blocks (messages (ref_commit aid c s)) = map id_blocks (messages s)"
  by (simp add: ref_commit_flush flushText_def id_blocks_merge_text)

lemma id_blocks_ref_event:
  "map id_blocks (messages (ref_event aid e s)) =
   map (add_blocks aid (structured_blocks [e])) (map id_blocks (messages s))"
  by (cases e)
     (simp_all add: id_blocks_ref_append id_blocks_ref_commit updatePhase_def add_blocks_Nil
        del: map_map)

lemma id_blocks_ref_run:
  "map id_blocks (messages (ref_run aid es s)) =
   map (add_blocks aid (structured_blocks es)) (map id_blocks (messages s))"
proof (induction es arbitrary: s)
  case Nil
  then show ?case by (simp add: add_blocks_Nil)
next
  case (Cons e es)
  have "structured_blocks (e # es) = structured_blocks [e] @ structured_blocks es"
    by (simp split: option.splits)
  then show ?case
    by (simp add: Cons.IH id_blocks_ref_event add_blocks_add_blocks comp_def)
qed

lemma structured_order_ref:
  "map (\<lambda>m. filter (\<lambda>c. \<not> is_text c) (contents m)) (messages (ref_run aid es s)) =
   map (\<lambda>m. filter (\<lambda>c. \<not> is_text c) (contents m) @ (if msg_id m = aid then structured_blocks es else []))
     (messages s)"
proof -
  have "map snd (map id_blocks (messages (ref_run aid es s))) =
     map snd (map (add_blocks aid (structured_blocks es)) (map id_blocks (messages s)))"
    by (simp only: id_blocks_ref_run)
  then show ?thesis by (simp add: id_blocks_def add_blocks_def comp_def)
qed



section \<open>The final transcript does not depend on the flush threshold\<close>

text \<open>
  C1. Take any event sequence whose last event is terminal (\<^verbatim>\<open>done\<close> or \<^verbatim>\<open>error\<close>),
  run from an empty text buffer. The reducer of the source, which flushes above 50
  code units, ends in the state of the reference reducer that commits every token at
  once; the reducer with any other threshold ends in the same state and with an empty
  buffer; and in every message the blocks that are not text are those it had,
  followed for the assistant message by the blocks of the structured events in the
  order of these events.
\<close>

theorem final_blocks_independent_of_threshold:
  assumes "es \<noteq> []" and "is_terminal (last es)"
  shows "fst (run_events flush_threshold aid es (s, [])) = ref_run aid es s
       \<and> run_events thr aid es (s, []) = run_events flush_threshold aid es (s, [])
       \<and> map (\<lambda>m. filter (\<lambda>c. \<not> is_text c) (contents m))
             (messages (fst (run_events flush_threshold aid es (s, [])))) =
           map (\<lambda>m. filter (\<lambda>c. \<not> is_text c) (contents m) @
                     (if msg_id m = aid then structured_blocks es else []))
             (messages s)"
proof -
  have any: "run_events t aid es (s, []) = (ref_run aid es s, [])" for t
    using assms by (rule run_events_terminal_eq)
  show ?thesis
    by (simp only: any fst_conv structured_order_ref simp_thms)
qed

theorem final_blocks_independent_of_threshold_witness:
  "[E_token (ascii ''ab''), E_token (ascii ''c''), E_audience_result demo_audience,
    E_token (ascii ''d''), E_done] \<noteq> []
   \<and> is_terminal (last [E_token (ascii ''ab''), E_token (ascii ''c''),
        E_audience_result demo_audience, E_token (ascii ''d''), E_done])
   \<and> messages (fst (run_events 0 (ascii ''a1'')
        [E_token (ascii ''ab''), E_token (ascii ''c''), E_audience_result demo_audience,
         E_token (ascii ''d''), E_done] (demo_state, []))) =
       messages (fst (run_events flush_threshold (ascii ''a1'')
        [E_token (ascii ''ab''), E_token (ascii ''c''), E_audience_result demo_audience,
         E_token (ascii ''d''), E_done] (demo_state, [])))
   \<and> messages (fst (run_events flush_threshold (ascii ''a1'')
        [E_token (ascii ''ab''), E_token (ascii ''c''), E_audience_result demo_audience,
         E_token (ascii ''d''), E_done] (demo_state, []))) =
       [\<lparr>msg_id = ascii ''u1'', msg_role = User, contents = [Text (ascii ''hi'')]\<rparr>,
        \<lparr>msg_id = ascii ''a1'', msg_role = Assistant,
          contents = [Text (ascii ''abc''), Audience demo_audience, Text (ascii ''d'')]\<rparr>]"
  using final_blocks_independent_of_threshold
    [of "[E_token (ascii ''ab''), E_token (ascii ''c''), E_audience_result demo_audience,
          E_token (ascii ''d''), E_done]" "ascii ''a1''" demo_state 0]
  by (simp add: demo_state_def ref_commit_flush ref_append_def flushText_def merge_text_def
        ascii_def)



section \<open>What a flush does\<close>

lemma flushText_nonempty:
  "buf \<noteq> [] \<Longrightarrow>
   flushText aid (s, buf) =
     (s\<lparr>messages := map (\<lambda>m. if msg_id m = aid
                               then m\<lparr>contents := flushed_contents buf (contents m)\<rparr> else m)
                         (messages s)\<rparr>, [])"
  by (simp add: flushText_def merge_text_flushed_contents cong: if_cong)

lemma handle_structured:
  "structured_block e = Some c \<Longrightarrow>
   handle_event thr aid e rs = (ref_append aid c (fst (flushText aid rs)), [])"
  by (cases e) (simp_all add: appendContent_flushed)

text \<open>
  C4. A flush of a non-empty buffer changes only the messages that carry the
  assistant's identifier, and there it merges the text into the last block exactly
  when that block is a text block, and appends one new text block otherwise
  (\<open>flushed_contents\<close>); the buffer is empty afterwards. A structured event appends
  its block to the blocks that this flush has produced.
\<close>

theorem flush_merges_only_into_text:
  "(buf \<noteq> [] \<longrightarrow>
      flushText aid (s, buf) =
        (s\<lparr>messages := map (\<lambda>m. if msg_id m = aid
                                  then m\<lparr>contents := flushed_contents buf (contents m)\<rparr> else m)
                            (messages s)\<rparr>, []))
   \<and> (structured_block e = Some c \<longrightarrow>
        handle_event thr aid e (s, buf) =
          (let s' = fst (flushText aid (s, buf)) in
           (s'\<lparr>messages := map (\<lambda>m. if msg_id m = aid
                                      then m\<lparr>contents := contents m @ [c]\<rparr> else m)
                                (messages s')\<rparr>, [])))"
  using flushText_nonempty [of buf aid s] handle_structured [of e c thr aid "(s, buf)"]
  by (simp add: ref_append_def Let_def)

theorem flush_merges_only_into_text_witness:
  "ascii ''x'' \<noteq> []
   \<and> structured_block (E_audience_result demo_audience) = Some (Audience demo_audience)
   \<and> flushText (ascii ''a1'') (demo_state2, ascii ''x'') =
       (demo_state2\<lparr>messages :=
          [\<lparr>msg_id = ascii ''a1'', msg_role = Assistant,
             contents = [Audience demo_audience, Text (ascii ''abx'')]\<rparr>]\<rparr>, [])
   \<and> handle_event flush_threshold (ascii ''a1'') (E_audience_result demo_audience)
         (demo_state2, ascii ''x'') =
       (demo_state2\<lparr>messages :=
          [\<lparr>msg_id = ascii ''a1'', msg_role = Assistant,
             contents = [Audience demo_audience, Text (ascii ''abx''),
                         Audience demo_audience]\<rparr>]\<rparr>, [])"
  using flush_merges_only_into_text
    [of "ascii ''x''" "ascii ''a1''" demo_state2 "E_audience_result demo_audience"
        "Audience demo_audience" flush_threshold]
  by (simp add: demo_state2_def flushed_contents_def flushText_def merge_text_def ascii_def
        Let_def)


section \<open>The text of a span of tokens\<close>

lemma ref_run_span:
  "\<forall>e\<in>set es. in_span e \<Longrightarrow>
   messages (ref_run aid es s) = messages (fst (flushText aid (s, span_text es)))"
proof (induction es arbitrary: s)
  case Nil
  then show ?case by (simp add: span_text_def flushText_empty)
next
  case (Cons e es)
  then have rest: "\<forall>e\<in>set es. in_span e" and e: "in_span e" by simp_all
  show ?case
  proof (cases e)
    case (E_token c)
    then show ?thesis
      using Cons.IH [OF rest, of "ref_commit aid c s"]
      by (simp add: span_text_def ref_commit_flush fst_flushText_append)
  next
    case (E_agent_step node st)
    then show ?thesis
      using Cons.IH [OF rest, of "updatePhase node st s"]
      by (simp add: span_text_def flushText_updatePhase) (simp add: flushText_def updatePhase_def)
  qed (use e in simp_all)
qed

lemma handle_event_after_flush:
  "\<not> in_span e \<Longrightarrow> handle_event thr aid e rs = handle_event thr aid e (flushText aid rs)"
  by (cases e) (simp_all add: flushText_idem)

lemma handle_event_messages_cong:
  "\<not> in_span e \<Longrightarrow> messages s1 = messages s2 \<Longrightarrow>
   messages (fst (handle_event thr aid e (s1, []))) = messages (fst (handle_event thr aid e (s2, [])))"
  by (cases e) (simp_all add: flushText_empty appendContent_def)

text \<open>
  C3. Let \<open>es\<close> be the events between two structured or terminal events: tokens,
  with phase updates among them, received from an empty buffer. Whatever the
  threshold, once the buffer is flushed the messages are those obtained by committing
  the concatenation of the fragments in one piece, and the structured or terminal
  event that follows the span acts as if that concatenation were the whole buffer.
  For a span of tokens alone the text is the concatenation of their contents.
\<close>

theorem token_span_committed_as_concatenation:
  assumes "\<forall>e\<in>set es. in_span e"
  shows "messages (fst (flushText aid (run_events thr aid es (s, [])))) =
           messages (ref_commit aid (span_text es) s)
       \<and> (\<not> in_span e \<longrightarrow>
            messages (fst (run_events thr aid (es @ [e]) (s, []))) =
            messages (fst (handle_event thr aid e (s, span_text es))))
       \<and> span_text (map E_token ts) = concat ts"
proof -
  have a: "fst (flushText aid (run_events thr aid es (s, []))) = ref_run aid es s"
    by (simp add: run_events_sim flushText_empty)
  have b: "messages (ref_run aid es s) = messages (fst (flushText aid (s, span_text es)))"
    using assms by (rule ref_run_span)
  have c: "messages (fst (flushText aid (s, span_text es))) =
           messages (ref_commit aid (span_text es) s)"
    by (simp add: ref_commit_flush)
  have d: "messages (fst (run_events thr aid (es @ [e]) (s, []))) =
            messages (fst (handle_event thr aid e (s, span_text es)))" if ne: "\<not> in_span e"
  proof -
    have "run_events thr aid (es @ [e]) (s, []) =
          handle_event thr aid e (flushText aid (run_events thr aid es (s, [])))"
      using handle_event_after_flush [OF ne] by (simp add: run_events_append)
    also have "flushText aid (run_events thr aid es (s, [])) = (ref_run aid es s, [])"
      using a snd_flushText [of aid "run_events thr aid es (s, [])"] by (metis prod.collapse)
    finally have l: "run_events thr aid (es @ [e]) (s, []) = handle_event thr aid e (ref_run aid es s, [])" .
    have "handle_event thr aid e (s, span_text es) =
          handle_event thr aid e (flushText aid (s, span_text es))"
      using handle_event_after_flush [OF ne] .
    also have "flushText aid (s, span_text es) = (fst (flushText aid (s, span_text es)), [])"
      using snd_flushText [of aid "(s, span_text es)"] by (metis prod.collapse)
    finally have r: "handle_event thr aid e (s, span_text es) =
        handle_event thr aid e (fst (flushText aid (s, span_text es)), [])" .
    show ?thesis
      unfolding l r using handle_event_messages_cong [OF ne b] .
  qed
  have t: "span_text (map E_token ts) = concat ts"
    by (simp add: span_text_def comp_def)
  show ?thesis using a b c d t by simp
qed

theorem token_span_committed_as_concatenation_witness:
  "in_span (E_token (ascii ''ab'')) \<and> in_span (E_agent_step (ascii ''query_crm'') Running)
   \<and> in_span (E_token (ascii ''c'')) \<and> \<not> in_span E_done
   \<and> messages (fst (run_events 1 (ascii ''a1'')
         ([E_token (ascii ''ab''), E_agent_step (ascii ''query_crm'') Running,
           E_token (ascii ''c'')] @ [E_done]) (demo_state, []))) =
       [\<lparr>msg_id = ascii ''u1'', msg_role = User, contents = [Text (ascii ''hi'')]\<rparr>,
        \<lparr>msg_id = ascii ''a1'', msg_role = Assistant, contents = [Text (ascii ''abc'')]\<rparr>]"
  using token_span_committed_as_concatenation
    [of "[E_token (ascii ''ab''), E_agent_step (ascii ''query_crm'') Running,
          E_token (ascii ''c'')]" "ascii ''a1''" 1 demo_state E_done "[]"]
  by (simp add: span_text_def demo_state_def flushText_def merge_text_def updatePhase_def
        ref_commit_def flushed_contents_def ascii_def)


section \<open>Failures\<close>







lemma isStreaming_flushText: "isStreaming (fst (flushText aid rs)) = isStreaming (fst rs)"
  by (cases rs) (simp add: flushText_def)




lemma phases_flushText: "phases (fst (flushText aid rs)) = phases (fst rs)"
  by (cases rs) (simp add: flushText_def)

lemma phases_ref_append: "phases (ref_append aid c s) = phases s"
  by (simp add: ref_append_def)





section \<open>\<^verbatim>\<open>send\<close>: the guard and the history\<close>

lemma trim_empty_iff: "trim t = [] \<longleftrightarrow> list_all is_ws t"
proof -
  have "dropWhile is_ws (rev (dropWhile is_ws t)) = [] \<longleftrightarrow> (\<forall>x\<in>set (dropWhile is_ws t). is_ws x)"
    by (simp add: dropWhile_eq_Nil_conv)
  also have "\<dots> \<longleftrightarrow> dropWhile is_ws t = []"
  proof
    assume a: "\<forall>x\<in>set (dropWhile is_ws t). is_ws x"
    show "dropWhile is_ws t = []"
    proof (rule ccontr)
      assume n: "dropWhile is_ws t \<noteq> []"
      then have "\<not> is_ws (hd (dropWhile is_ws t))" by (rule hd_dropWhile)
      moreover have "hd (dropWhile is_ws t) \<in> set (dropWhile is_ws t)" using n by simp
      ultimately show False using a by blast
    qed
  next
    assume e: "dropWhile is_ws t = []"
    show "\<forall>x\<in>set (dropWhile is_ws t). is_ws x" unfolding e by simp
  qed
  also have "\<dots> \<longleftrightarrow> list_all is_ws t"
    by (simp add: dropWhile_eq_Nil_conv list_all_iff)
  finally show ?thesis by (simp add: trim_def)
qed

text \<open>
  C10. When the input is empty or consists of white space only, or when a stream is
  in progress, \<^verbatim>\<open>send\<close> returns the state as it was and issues no request; in every
  other case it issues one.
\<close>

theorem send_ignores_blank_input_and_busy_state:
  "(list_all is_ws text \<or> isStreaming s \<longrightarrow> send parse server uid aid text s = (s, None))
   \<and> (\<not> list_all is_ws text \<and> \<not> isStreaming s \<longrightarrow> snd (send parse server uid aid text s) \<noteq> None)"
  by (simp add: send_def trim_empty_iff Let_def)

theorem send_ignores_blank_input_and_busy_state_witness:
  "list_all is_ws (ascii ''  '')
   \<and> send demo_parse demo_server_down (ascii ''u1'') (ascii ''a1'') (ascii ''  '') demo_idle =
       (demo_idle, None)
   \<and> \<not> list_all is_ws (ascii ''hi'') \<and> \<not> isStreaming demo_idle
   \<and> snd (send demo_parse demo_server_down (ascii ''u1'') (ascii ''a1'') (ascii ''hi'') demo_idle)
       \<noteq> None"
  using send_ignores_blank_input_and_busy_state
    [of "ascii ''  ''" demo_idle demo_parse demo_server_down "ascii ''u1''" "ascii ''a1''"]
    send_ignores_blank_input_and_busy_state
    [of "ascii ''hi''" demo_idle demo_parse demo_server_down "ascii ''u1''" "ascii ''a1''"]
  by (simp add: is_ws_def ascii_def demo_idle_def)

lemma texts_comprehension: "map text_of (filter is_text cs) = [t. Text t \<leftarrow> cs]"
proof (induction cs)
  case Nil
  then show ?case by simp
next
  case (Cons c cs)
  then show ?case by (cases c) simp_all
qed

lemma no_text_blocks: "\<forall>c\<in>set cs. \<not> is_text c \<Longrightarrow> filter is_text cs = []"
  by (simp add: filter_empty_conv)

text \<open>
  C9. The history has one entry for each message, with the role of the message and,
  as content, the texts of its text blocks joined by line feeds; structured blocks
  contribute nothing, so a message without text blocks has the empty content. A
  \<^verbatim>\<open>send\<close> that starts a request posts the history of the messages so far followed
  by the new user message.
\<close>

theorem history_carries_text_blocks_only:
  "length (chat_history ms) = length ms
   \<and> map role (chat_history ms) = map msg_role ms
   \<and> map content (chat_history ms) = map (\<lambda>m. join [0x0A] [t. Text t \<leftarrow> contents m]) ms
   \<and> (\<forall>m\<in>set ms. (\<forall>c\<in>set (contents m). \<not> is_text c) \<longrightarrow> content (to_chat m) = [])
   \<and> (trim text \<noteq> [] \<and> \<not> isStreaming s \<longrightarrow>
        snd (send parse server uid aid text s) =
          Some (chat_history
                  (messages s @ [\<lparr>msg_id = uid, msg_role = User, contents = [Text (trim text)]\<rparr>])))"
  by (simp add: chat_history_def to_chat_def texts_comprehension no_text_blocks send_def Let_def
        comp_def)

theorem history_carries_text_blocks_only_witness:
  "contents demo_cards_only = [Audience demo_audience] \<and> \<not> is_text (Audience demo_audience)
   \<and> content (to_chat demo_cards_only) = []
   \<and> map content (chat_history [demo_cards, demo_cards_only]) = [ascii ''ab'' @ [0x0A] @ ascii ''cd'', []]
   \<and> trim (ascii ''hi'') \<noteq> [] \<and> \<not> isStreaming demo_idle
   \<and> snd (send demo_parse demo_server_down (ascii ''u1'') (ascii ''a1'') (ascii ''hi'') demo_idle) =
       Some [\<lparr>role = User, content = ascii ''hi''\<rparr>]"
  using history_carries_text_blocks_only
    [of "[demo_cards, demo_cards_only]" "ascii ''hi''" demo_idle demo_parse demo_server_down
        "ascii ''u1''" "ascii ''a1''"]
  by (simp add: demo_cards_def demo_cards_only_def demo_idle_def chat_history_def to_chat_def
        trim_def is_ws_def ascii_def)


section \<open>Rendering of cards\<close>

text \<open>
  C7. In both versions of the message renderer an audience block with count 0 renders
  as \<^verbatim>\<open>null\<close> and one with a positive count as the audience card. The reducer
  appends the audience block whatever its count and leaves the phase projection as
  it was, and rendering yields one entry for each block of the message.
\<close>

theorem empty_audience_card_not_rendered:
  "(count d = 0 \<longrightarrow>
      render_content u i (Audience d) = None \<and> render_content_md u i (Audience d) = None)
   \<and> (count d > 0 \<longrightarrow>
      render_content u i (Audience d) = Some (AudienceCard i d) \<and>
      render_content_md u i (Audience d) = Some (AudienceCard i d))
   \<and> handle_event thr aid (E_audience_result d) (s, buf) =
       (ref_append aid (Audience d) (fst (flushText aid (s, buf))), [])
   \<and> phases (fst (handle_event thr aid (E_audience_result d) (s, buf))) = phases s
   \<and> length (MessageBubble m) = length (contents m)
   \<and> length (MessageBubble_md m) = length (contents m)
   \<and> (\<forall>k<length (contents m).
        MessageBubble m ! k = render_content (msg_role m = User) k (contents m ! k) \<and>
        MessageBubble_md m ! k = render_content_md (msg_role m = User) k (contents m ! k))"
  by (simp add: appendContent_flushed phases_ref_append phases_flushText MessageBubble_def
        MessageBubble_md_def nth_enumerate_eq Let_def)

theorem empty_audience_card_not_rendered_witness:
  "count demo_empty_audience = 0 \<and> count demo_audience > 0
   \<and> (3::nat) < length (contents demo_cards)
   \<and> MessageBubble demo_cards =
       [Some (Plain_bubble 0 False (ascii ''ab'')), None,
        Some (Plain_bubble 2 False (ascii ''cd'')), Some (AudienceCard 3 demo_audience)]
   \<and> MessageBubble_md demo_cards =
       [Some (Markdown_bubble 0 (ascii ''ab'')), None,
        Some (Markdown_bubble 2 (ascii ''cd'')), Some (AudienceCard 3 demo_audience)]"
  using empty_audience_card_not_rendered
    [of demo_empty_audience False 1 0 "ascii ''a1''" demo_state "[]" demo_cards]
    empty_audience_card_not_rendered
    [of demo_audience False 3 0 "ascii ''a1''" demo_state "[]" demo_cards]
  by (simp add: demo_cards_def demo_empty_audience_def demo_audience_def MessageBubble_def
        MessageBubble_md_def enumerate_eq_zip upt_rec)

text \<open>
  C8. The SMS preview shows the body as it is, whatever its length; the counter shows
  the number of code units, and only its class depends on whether that number exceeds
  160. The reducer and the message renderer pass the campaign draft on unchanged.
\<close>

theorem sms_body_shown_in_full:
  "bubble_text (SMSPreview b) = sms_body b
   \<and> counter_text (SMSPreview b) = show_nat (length (sms_body b)) @ ascii ''/160 chars''
   \<and> (counter_class (SMSPreview b) = ascii ''text-red-400'' \<longleftrightarrow> length (sms_body b) > 160)
   \<and> (counter_class (SMSPreview b) = ascii ''text-gray-600'' \<longleftrightarrow> length (sms_body b) \<le> 160)
   \<and> CampaignPreview Sms_tab d = SMSPreview_panel (SMSPreview (sms d))
   \<and> render_content u i (Campaign d) = Some (CampaignPreview_el i d)
   \<and> render_content_md u i (Campaign d) = Some (CampaignPreview_el i d)
   \<and> handle_event thr aid (E_campaign_draft d) (s, buf) =
       (ref_append aid (Campaign d) (fst (flushText aid (s, buf))), [])"
  by (simp add: SMSPreview_def CampaignPreview_def appendContent_flushed Let_def ascii_def)


section \<open>Phase updates\<close>

text \<open>
  C2. The frame that the repository documents for the start of the CRM query is
  \<^verbatim>\<open>agent_step\<close> with node \<^verbatim>\<open>query_crm\<close> and status \<^verbatim>\<open>running\<close>, and the phase that
  stands for this tool is \<^verbatim>\<open>audience_research\<close>. On this frame the client stores the
  status under the key \<^verbatim>\<open>query_crm\<close> and nothing under \<^verbatim>\<open>audience_research\<close>; the
  pipeline, which showed nothing before, now shows its five phases, all of them idle.
\<close>

theorem query_crm_step_lights_no_phase:
  "node_to_phase (ascii ''query_crm'') = Some (ascii ''audience_research'')
   \<and> phases (fst (handle_event flush_threshold (ascii ''a1'')
                 (E_agent_step (ascii ''query_crm'') Running) (demo_state, []))) =
       [(ascii ''query_crm'', Running)]
   \<and> map_of (phases (fst (handle_event flush_threshold (ascii ''a1'')
                 (E_agent_step (ascii ''query_crm'') Running) (demo_state, []))))
         (ascii ''audience_research'') = None
   \<and> AgentPipeline (phases demo_state) = None
   \<and> AgentPipeline (phases (fst (handle_event flush_threshold (ascii ''a1'')
                 (E_agent_step (ascii ''query_crm'') Running) (demo_state, [])))) =
       Some (map (\<lambda>phase. (phase, Idle)) PHASES)"
  by (simp add: node_to_phase_def demo_state_def updatePhase_def phase_status_def
        AgentPipeline_def PHASES_def ascii_def)


section \<open>Frames of the stream\<close>

lemma split_nn_nonempty: "split_nn s \<noteq> []"
  by (induction s rule: split_nn.induct) (auto split: list.splits)

lemma split_nn_single: "split_nn s = [p] \<Longrightarrow> p = s"
proof (induction s arbitrary: p rule: split_nn.induct)
  case 1
  then show ?case by simp
next
  case (2 x)
  then show ?case by simp
next
  case (3 x y zs)
  show ?case
  proof (cases "x = 0x0A \<and> y = 0x0A")
    case True
    with "3.prems" split_nn_nonempty [of zs] show ?thesis by simp
  next
    case False
    obtain p0 ps0 where S: "split_nn (y # zs) = p0 # ps0"
      using split_nn_nonempty [of "y # zs"] by (cases "split_nn (y # zs)") auto
    with "3.prems" False have "ps0 = []" and p: "p = x # p0" by auto
    with S have "split_nn (y # zs) = [p0]" by simp
    from "3.IH"(2) [OF False this] p show ?thesis by simp
  qed
qed

lemma split_nn_Cons:
  "\<not> (x = 0x0A \<and> y = 0x0A) \<Longrightarrow>
   split_nn (x # y # zs) = (x # hd (split_nn (y # zs))) # tl (split_nn (y # zs))"
  using split_nn_nonempty [of "y # zs"] by (cases "split_nn (y # zs)") auto

lemma split_nn_append:
  "split_nn (a @ b) = butlast (split_nn a) @ split_nn (last (split_nn a) @ b)"
proof (induction a rule: split_nn.induct)
  case 1
  then show ?case by simp
next
  case (2 x)
  then show ?case by simp
next
  case (3 x y zs)
  show ?case
  proof (cases "x = 0x0A \<and> y = 0x0A")
    case True
    then show ?thesis using "3.IH"(1) [OF True] split_nn_nonempty [of zs] by simp
  next
    case False
    obtain p0 ps0 where S: "split_nn (y # zs) = p0 # ps0"
      using split_nn_nonempty [of "y # zs"] by (cases "split_nn (y # zs)") auto
    have a: "split_nn (x # y # zs) = (x # p0) # ps0" using False S by simp
    have ih: "split_nn ((y # zs) @ b) = butlast (p0 # ps0) @ split_nn (last (p0 # ps0) @ b)"
      using "3.IH"(2) [OF False] S by simp
    have l: "split_nn ((x # y # zs) @ b) =
             (x # hd (split_nn ((y # zs) @ b))) # tl (split_nn ((y # zs) @ b))"
      using split_nn_Cons [OF False, of "zs @ b"] by simp
    show ?thesis
    proof (cases "ps0 = []")
      case True
      with S have "p0 = y # zs" using split_nn_single by simp
      then show ?thesis using a True by simp
    next
      case False
      then show ?thesis using a ih l by simp
    qed
  qed
qed

lemma split_nn_last: "split_nn (last (split_nn s)) = [last (split_nn s)]"
proof (induction s rule: split_nn.induct)
  case 1
  then show ?case by simp
next
  case (2 x)
  then show ?case by simp
next
  case (3 x y zs)
  show ?case
  proof (cases "x = 0x0A \<and> y = 0x0A")
    case True
    then show ?thesis using "3.IH"(1) [OF True] split_nn_nonempty [of zs] by simp
  next
    case False
    obtain p0 ps0 where S: "split_nn (y # zs) = p0 # ps0"
      using split_nn_nonempty [of "y # zs"] by (cases "split_nn (y # zs)") auto
    have a: "split_nn (x # y # zs) = (x # p0) # ps0" using False S by simp
    show ?thesis
    proof (cases "ps0 = []")
      case True
      with S have "p0 = y # zs" using split_nn_single by simp
      then show ?thesis using a True by simp
    next
      case ne: False
      then show ?thesis using a "3.IH"(2) [OF False] S by simp
    qed
  qed
qed

lemma pop_split_nn: "pop (split_nn s) = (last (split_nn s), butlast (split_nn s))"
  using split_nn_nonempty [of s] by (cases "split_nn s") (simp_all add: pop_def)

lemma yield_parts_append:
  "yield_parts parse (xs @ ys) = yield_parts parse xs @ yield_parts parse ys"
  by (induction xs) (simp_all split: option.splits)

lemma read_loop_whole:
  "split_nn buf = [buf] \<Longrightarrow>
   read_loop parse buf vs = yield_parts parse (butlast (split_nn (buf @ concat vs)))"
proof (induction vs arbitrary: buf)
  case Nil
  then show ?case by simp
next
  case (Cons v vs)
  have "split_nn (buf @ concat (v # vs)) =
        butlast (split_nn (buf @ v)) @ split_nn (last (split_nn (buf @ v)) @ concat vs)"
    using split_nn_append [of "buf @ v" "concat vs"] by simp
  then have "butlast (split_nn (buf @ concat (v # vs))) =
        butlast (split_nn (buf @ v)) @ butlast (split_nn (last (split_nn (buf @ v)) @ concat vs))"
    by (simp add: butlast_append split_nn_nonempty)
  then show ?case
    using Cons.IH [OF split_nn_last [of "buf @ v"]]
    by (simp add: pop_split_nn yield_parts_append)
qed

lemma streamed_events: "read_loop parse [] vs = yield_parts parse (butlast (split_nn (concat vs)))"
  using read_loop_whole [of "[]" parse vs] by simp

lemma payload_after_take_drop:
  "payload_after p s = (if take (length p) s = p then Some (drop (length p) s) else None)"
  by (induction p s rule: payload_after.induct) auto

lemma payload_after_iff: "payload_after p s = Some r \<longleftrightarrow> s = p @ r"
  by (induction p s rule: payload_after.induct) auto

lemma corrupt_frame_iff:
  "corrupt_frame parse frame \<longleftrightarrow>
     \<not> (\<exists>payload. trim frame = ascii ''data: '' @ payload \<and> parse payload \<noteq> None)"
proof (cases "payload_after (ascii ''data: '') (trim frame)")
  case None
  then have "\<And>payload. trim frame \<noteq> ascii ''data: '' @ payload"
    using payload_after_iff [of "ascii ''data: ''" "trim frame"] by auto
  with None show ?thesis by (simp add: corrupt_frame_def)
next
  case (Some r)
  then have "trim frame = ascii ''data: '' @ r" by (simp add: payload_after_iff)
  with Some show ?thesis by (auto simp: corrupt_frame_def)
qed

lemma decode_part_corrupt: "decode_part parse frame = None \<longleftrightarrow> corrupt_frame parse frame"
proof -
  have "length (ascii ''data: '') = 6" by (simp add: ascii_def)
  then show ?thesis
    by (simp add: decode_part_def corrupt_frame_def startsWith_def payload_after_take_drop Let_def)
qed

text \<open>
  C5. Let the text of a stream be \<open>pre\<close>, a frame \<open>bad\<close> with its delimiter, and
  \<open>post\<close>, where \<open>pre\<close> ends at a frame boundary, \<open>bad\<close> is one frame, and \<open>bad\<close>
  is corrupt: it lacks the prefix \<^verbatim>\<open>data: \<close> or its payload does not parse. However the
  two texts are cut into chunks, the stream yields the events of the stream without
  \<open>bad\<close>, so \<^verbatim>\<open>streamChat\<close> returns the same outcome and the reducer ends in the
  same state.
\<close>

theorem corrupt_frame_is_dropped:
  assumes "last (split_nn pre) = []"
    and "split_nn (bad @ [0x0A, 0x0A]) = [bad, []]"
    and "corrupt_frame parse bad"
    and "concat cs1 = pre @ bad @ [0x0A, 0x0A] @ post"
    and "concat cs2 = pre @ post"
  shows "read_loop parse [] cs1 = read_loop parse [] cs2
       \<and> streamChat parse (Fetched (r\<lparr>body_chunks := cs1\<rparr>)) =
         streamChat parse (Fetched (r\<lparr>body_chunks := cs2\<rparr>))
       \<and> consume aid (streamChat parse (Fetched (r\<lparr>body_chunks := cs1\<rparr>))) s =
         consume aid (streamChat parse (Fetched (r\<lparr>body_chunks := cs2\<rparr>))) s"
proof -
  have none: "decode_part parse bad = None"
    using assms(3) by (simp add: decode_part_corrupt)
  have pre: "split_nn (pre @ x) = butlast (split_nn pre) @ split_nn x" for x
    using split_nn_append [of pre x] assms(1) by simp
  have "split_nn ((bad @ [0x0A, 0x0A]) @ post) = bad # split_nn post"
    using split_nn_append [of "bad @ [0x0A, 0x0A]" post] assms(2) by simp
  then have t1: "split_nn (concat cs1) = butlast (split_nn pre) @ bad # split_nn post"
    using pre [of "bad @ [0x0A, 0x0A] @ post"] assms(4) by simp
  have t2: "split_nn (concat cs2) = butlast (split_nn pre) @ split_nn post"
    using pre [of post] assms(5) by simp
  have "yield_parts parse (butlast (split_nn (concat cs1))) =
        yield_parts parse (butlast (split_nn (concat cs2)))"
    using none
    by (simp add: t1 t2 butlast_append split_nn_nonempty yield_parts_append)
  then have e: "read_loop parse [] cs1 = read_loop parse [] cs2"
    by (simp only: streamed_events)
  then have "streamChat parse (Fetched (r\<lparr>body_chunks := cs1\<rparr>)) =
         streamChat parse (Fetched (r\<lparr>body_chunks := cs2\<rparr>))"
    by (simp add: streamChat_def)
  with e show ?thesis by simp
qed

theorem corrupt_frame_is_dropped_witness:
  "last (split_nn (ascii ''data: T'' @ [0x0A, 0x0A])) = []
   \<and> split_nn (ascii ''event:D'' @ [0x0A, 0x0A]) = [ascii ''event:D'', []]
   \<and> split_nn (ascii ''data: {bad'' @ [0x0A, 0x0A]) = [ascii ''data: {bad'', []]
   \<and> payload_after (ascii ''data: '') (trim (ascii ''event:D'')) = None
   \<and> corrupt_frame demo_parse (ascii ''event:D'')
   \<and> payload_after (ascii ''data: '') (trim (ascii ''data: {bad'')) = Some (ascii ''{bad'')
   \<and> demo_parse (ascii ''{bad'') = None
   \<and> corrupt_frame demo_parse (ascii ''data: {bad'')
   \<and> read_loop demo_parse []
        [ascii ''data: T'' @ [0x0A, 0x0A] @ ascii ''eve'',
         ascii ''nt:D'' @ [0x0A, 0x0A] @ ascii ''data: D'' @ [0x0A, 0x0A]] =
       [E_token (ascii ''hey''), E_done]
   \<and> read_loop demo_parse []
        [ascii ''data: T'' @ [0x0A, 0x0A] @ ascii ''data: {b'',
         ascii ''ad'' @ [0x0A, 0x0A] @ ascii ''data: D'' @ [0x0A, 0x0A]] =
       [E_token (ascii ''hey''), E_done]
   \<and> read_loop demo_parse []
        [ascii ''data: T'' @ [0x0A, 0x0A] @ ascii ''data: D'' @ [0x0A, 0x0A]] =
       [E_token (ascii ''hey''), E_done]"
  using corrupt_frame_is_dropped
    [of "ascii ''data: T'' @ [0x0A, 0x0A]" "ascii ''event:D''" demo_parse
        "[ascii ''data: T'' @ [0x0A, 0x0A] @ ascii ''eve'',
          ascii ''nt:D'' @ [0x0A, 0x0A] @ ascii ''data: D'' @ [0x0A, 0x0A]]"
        "ascii ''data: D'' @ [0x0A, 0x0A]"
        "[ascii ''data: T'' @ [0x0A, 0x0A] @ ascii ''data: D'' @ [0x0A, 0x0A]]"
        demo_response "ascii ''a1''" demo_state]
    corrupt_frame_is_dropped
    [of "ascii ''data: T'' @ [0x0A, 0x0A]" "ascii ''data: {bad''" demo_parse
        "[ascii ''data: T'' @ [0x0A, 0x0A] @ ascii ''data: {b'',
          ascii ''ad'' @ [0x0A, 0x0A] @ ascii ''data: D'' @ [0x0A, 0x0A]]"
        "ascii ''data: D'' @ [0x0A, 0x0A]"
        "[ascii ''data: T'' @ [0x0A, 0x0A] @ ascii ''data: D'' @ [0x0A, 0x0A]]"
        demo_response "ascii ''a1''" demo_state]
  by (simp add: ascii_def corrupt_frame_def decode_part_def demo_parse_def trim_def is_ws_def
        startsWith_def pop_def Let_def)

end
